theory Spec2Isabelle
  imports Main
begin

section \<open>The logger context guard (misc/logger.hpp)\<close>

text \<open>
  \<^verbatim>\<open>ErrorMessage\<close> and \<^verbatim>\<open>Logger\<close> are translated field by field. A \<^verbatim>\<open>Logger\<close> cannot be
  copied (copy constructor and assignment are private and not implemented), so
  every function that works on a logger takes its state and returns the new one.
\<close>

datatype Severity = Debug | Info | Message | Warning | Critical | Error

record ErrorMessage =
  sev :: Severity
  message :: string

record Logger =
  ignore :: bool
  read :: bool
  messages :: "ErrorMessage list"
  "context" :: string

text \<open>
  Modelled from the spec: the bodies of \<^verbatim>\<open>Logger::set_context\<close> and
  \<^verbatim>\<open>Logger::get_context\<close> are missing (logger.hpp only declares them, and the spec
  leaves the logging facility to its interface). They are taken as the plain write
  and read of the member \<^verbatim>\<open>context\<close>, "context which is added to all messages",
  which is what their names and signatures in logger.hpp say. The default argument
  of \<^verbatim>\<open>set_context\<close> is the empty string.
\<close>

definition set_context :: "Logger \<Rightarrow> string \<Rightarrow> Logger" where
  "set_context l new_context = l\<lparr>context := new_context\<rparr>"

definition get_context :: "Logger \<Rightarrow> string" where
  "get_context l = context l"

text \<open>
  \<^verbatim>\<open>SetLoggerContextForFunction\<close> holds a reference to the logger and a copy of the
  context it found. The reference is the logger state passed to the constructor and
  to the destructor; between the two calls the logger may have changed (messages
  logged, nested guards), so the destructor takes the state of that moment.
\<close>

record SetLoggerContextForFunction =
  orig_context :: string

definition SetLoggerContextForFunction_ctor ::
    "string \<Rightarrow> Logger \<Rightarrow> SetLoggerContextForFunction \<times> Logger" where
  "SetLoggerContextForFunction_ctor ctx l =
     (let orig = get_context l
      in (\<lparr>orig_context = orig\<rparr>,
          set_context l (if orig = [] then ctx else orig @ '', '' @ ctx)))"

definition SetLoggerContextForFunction_dtor ::
    "SetLoggerContextForFunction \<Rightarrow> Logger \<Rightarrow> Logger" where
  "SetLoggerContextForFunction_dtor slc l = set_context l (orig_context slc)"

section \<open>The rectangle object (cave/object/caveobjectrectangle.hpp)\<close>

text \<open>
  Modelled from the spec: the types \<^verbatim>\<open>Coordinate\<close> and \<^verbatim>\<open>CaveRectangular\<close> are missing
  (the header includes cave/object/caveobjectrectangular.hpp, which is not among the
  sources). The spec gives a Coordinate as a pair of integers \<open>(x, y)\<close> and the
  rectangular geometry base as two Coordinates \<open>p1\<close> and \<open>p2\<close>, stored as given.
\<close>

record Coordinate =
  x :: int
  y :: int

record CaveRectangular =
  p1 :: Coordinate
  p2 :: Coordinate

text \<open>
  \<^verbatim>\<open>class CaveRectangle : public CaveRectangular { GdElement element; ... }\<close>:
  the record extends the base as the class does. The element type is a parameter
  \<open>'e\<close>, since the element enumeration is not among the sources. The object type tag
  that the constructors hand to the base (\<^verbatim>\<open>GD_RECTANGLE\<close>) is the same for every
  rectangle and is left out.
\<close>

record 'e CaveRectangle = CaveRectangular +
  element :: 'e

text \<open>
  \<^verbatim>\<open>get_characteristic_element() const { return element; }\<close>
\<close>

definition get_characteristic_element :: "'e CaveRectangle \<Rightarrow> 'e" where
  "get_characteristic_element r = element r"

text \<open>
  \<^verbatim>\<open>clone() const { return new CaveRectangle(*this); }\<close> allocates an object and
  initialises it with the implicit copy constructor, which copies the base and
  \<^verbatim>\<open>element\<close> member by member; all of them are held by value. Whether two
  pointers reach the same storage is what the claim about clone is about, so
  objects live in an explicit store: a list of objects, an address being an index
  into it. \<^verbatim>\<open>new\<close> appends, so the address it returns is fresh. The store is not
  bounded, so \<^verbatim>\<open>new\<close> always succeeds. A call through an address that holds no
  object (undefined behaviour in C++) is \<open>None\<close>.
\<close>

definition CaveRectangle_copy :: "'e CaveRectangle \<Rightarrow> 'e CaveRectangle" where
  "CaveRectangle_copy other = \<lparr>p1 = p1 other, p2 = p2 other, element = element other\<rparr>"

type_synonym 'e store = "'e CaveRectangle list"

definition new_CaveRectangle :: "'e CaveRectangle \<Rightarrow> 'e store \<Rightarrow> nat \<times> 'e store" where
  "new_CaveRectangle obj st = (length st, st @ [obj])"

definition clone :: "nat \<Rightarrow> 'e store \<Rightarrow> (nat \<times> 'e store) option" where
  "clone this st =
     (if this < length st
      then Some (new_CaveRectangle (CaveRectangle_copy (st ! this)) st)
      else None)"

text \<open>
  A write through a pointer: the object at address \<open>a\<close> is replaced by \<open>f\<close> of it
  (\<open>f\<close> is any change of its fields: a new \<open>p1\<close>, a new \<open>p2\<close>, a new element).
\<close>

definition assign ::
    "nat \<Rightarrow> ('e CaveRectangle \<Rightarrow> 'e CaveRectangle) \<Rightarrow> 'e store \<Rightarrow> 'e store" where
  "assign a f st = (if a < length st then st[a := f (st ! a)] else st)"

section \<open>Drawing and the text line, from the specification\<close>

text \<open>
  The header only declares \<^verbatim>\<open>draw\<close> and \<^verbatim>\<open>get_bdcff\<close>; their bodies, the
  rendered cave and the line formatter are in files that are not among the sources.
  The definitions of this section follow the specification's description of them.
\<close>

text \<open>
  Modelled from the spec: the type \<^verbatim>\<open>CaveRendered\<close> is missing. The spec gives it as a
  mutable 2-D grid of element identifiers, addressable by Coordinate, with a fixed
  width and height.
\<close>

record 'e CaveRendered =
  width :: int
  height :: int
  cells :: "Coordinate \<Rightarrow> 'e"

definition in_bounds :: "'e CaveRendered \<Rightarrow> Coordinate \<Rightarrow> bool" where
  "in_bounds cave p \<longleftrightarrow> 0 \<le> x p \<and> x p < width cave \<and> 0 \<le> y p \<and> y p < height cave"

text \<open>
  Modelled from the spec: the setter of the rendered cave is missing. The spec gives
  \<^verbatim>\<open>set(Coordinate, Element identifier)\<close>, "a no-op (not an error) for out-of-bounds
  coordinates".
\<close>

definition cave_set :: "'e CaveRendered \<Rightarrow> Coordinate \<Rightarrow> 'e \<Rightarrow> 'e CaveRendered" where
  "cave_set cave p e =
     (if in_bounds cave p then cave\<lparr>cells := (cells cave)(p := e)\<rparr> else cave)"

text \<open>
  Modelled from the spec: the bounding-box query of the rectangular geometry base is
  missing. The spec gives the box as
  \<open>[min(p1.x,p2.x), max(p1.x,p2.x)] \<times> [min(p1.y,p2.y), max(p1.y,p2.y)]\<close>; the result
  is its least and its greatest corner.
\<close>

definition bounding_box :: "'a CaveRectangular_scheme \<Rightarrow> Coordinate \<times> Coordinate" where
  "bounding_box r =
     (\<lparr>x = min (x (p1 r)) (x (p2 r)), y = min (y (p1 r)) (y (p2 r))\<rparr>,
      \<lparr>x = max (x (p1 r)) (x (p2 r)), y = max (y (p1 r)) (y (p2 r))\<rparr>)"

text \<open>
  Modelled from the spec: the body of \<^verbatim>\<open>CaveRectangle::draw\<close> is missing. The spec:
  "computes the normalized bounding box from the base; writes the characteristic
  element identifier into every grid cell on the box's perimeter only (top row,
  bottom row, left column, right column of the box)". Each row and each column is a
  loop over its cells that calls the setter.
\<close>

definition draw_row :: "int \<Rightarrow> int \<Rightarrow> int \<Rightarrow> 'e \<Rightarrow> 'e CaveRendered \<Rightarrow> 'e CaveRendered" where
  "draw_row x1 x2 j e cave = fold (\<lambda>i c. cave_set c \<lparr>x = i, y = j\<rparr> e) [x1..x2] cave"

definition draw_column :: "int \<Rightarrow> int \<Rightarrow> int \<Rightarrow> 'e \<Rightarrow> 'e CaveRendered \<Rightarrow> 'e CaveRendered" where
  "draw_column y1 y2 i e cave = fold (\<lambda>j c. cave_set c \<lparr>x = i, y = j\<rparr> e) [y1..y2] cave"

definition draw :: "'e CaveRectangle \<Rightarrow> 'e CaveRendered \<Rightarrow> 'e CaveRendered" where
  "draw r cave =
     (let (lo, hi) = bounding_box r; e = element r;
          c1 = draw_row (x lo) (x hi) (y lo) e cave;
          c2 = draw_row (x lo) (x hi) (y hi) e c1;
          c3 = draw_column (y lo) (y hi) (x lo) e c2
      in draw_column (y lo) (y hi) (x hi) e c3)"

text \<open>
  The perimeter of the normalized bounding box, as a predicate on cells: inside the
  box, and on its top row, bottom row, left column or right column.
\<close>

definition on_perimeter :: "'a CaveRectangular_scheme \<Rightarrow> Coordinate \<Rightarrow> bool" where
  "on_perimeter r p \<longleftrightarrow>
     (let (lo, hi) = bounding_box r
      in x lo \<le> x p \<and> x p \<le> x hi \<and> y lo \<le> y p \<and> y p \<le> y hi \<and>
         (y p = y lo \<or> y p = y hi \<or> x p = x lo \<or> x p = x hi))"

text \<open>
  Modelled from the spec: the line formatter is missing. The spec: "integers are
  base-10". A negative integer is a minus sign and the digits of its absolute value.
\<close>

definition digit_char :: "nat \<Rightarrow> char" where
  "digit_char d = ''0123456789'' ! d"

fun show_nat :: "nat \<Rightarrow> string" where
  "show_nat n =
     (if n < 10 then [digit_char n] else show_nat (n div 10) @ [digit_char (n mod 10)])"

declare show_nat.simps [simp del]

definition show_int :: "int \<Rightarrow> string" where
  "show_int i = (if i < 0 then CHR ''-'' # show_nat (nat (- i)) else show_nat (nat i))"

text \<open>
  Modelled from the spec: the body of \<^verbatim>\<open>CaveRectangle::get_bdcff\<close> is missing. The spec
  gives the line as \<^verbatim>\<open>Rectangle <p1.x> <p1.y> <p2.x> <p2.y> <element-name>\<close>, tokens
  separated by whitespace (one space here). The text form of an element is a
  parameter, \<open>element_name\<close>, since the element enumeration is not among the sources.
\<close>

definition get_bdcff :: "('e \<Rightarrow> string) \<Rightarrow> 'e CaveRectangle \<Rightarrow> string" where
  "get_bdcff element_name r =
     ''Rectangle'' @ '' '' @ show_int (x (p1 r)) @ '' '' @ show_int (y (p1 r)) @ '' '' @
     show_int (x (p2 r)) @ '' '' @ show_int (y (p2 r)) @ '' '' @ element_name (element r)"

section \<open>Properties of the logger context guard\<close>

lemma set_context_fields:
  "ignore (set_context l s) = ignore l"
  "read (set_context l s) = read l"
  "messages (set_context l s) = messages l"
  "context (set_context l s) = s"
  by (simp_all add: set_context_def)

lemma ctor_saves_context:
  "orig_context (fst (SetLoggerContextForFunction_ctor s l)) = context l"
  by (simp add: SetLoggerContextForFunction_ctor_def Let_def get_context_def)

lemma ctor_sets_context:
  "context (snd (SetLoggerContextForFunction_ctor s l)) =
     (if context l = [] then s else context l @ '', '' @ s)"
  by (simp add: SetLoggerContextForFunction_ctor_def Let_def get_context_def
      set_context_fields)

lemma dtor_sets_context:
  "context (SetLoggerContextForFunction_dtor slc l) = orig_context slc"
  by (simp add: SetLoggerContextForFunction_dtor_def set_context_fields)

text \<open>
  C10. For a logger whose context is \<open>c\<close> and any string \<open>s\<close>: constructing the
  guard with \<open>s\<close> leaves the logger with context \<open>s\<close> when \<open>c\<close> is empty and with
  \<open>c\<close>, a comma and a space, then \<open>s\<close> otherwise; destroying the guard sets the
  context back to exactly \<open>c\<close>, whatever state \<open>l'\<close> the logger has reached by then
  (the state right after construction included).
\<close>

theorem SetLoggerContextForFunction_restores:
  fixes l l' :: Logger and s :: string
  defines "g \<equiv> SetLoggerContextForFunction_ctor s l"
  shows "context (snd g) = (if context l = [] then s else context l @ '', '' @ s)
       \<and> context (SetLoggerContextForFunction_dtor (fst g) (snd g)) = context l
       \<and> context (SetLoggerContextForFunction_dtor (fst g) l') = context l"
proof -
  have restored: "context (SetLoggerContextForFunction_dtor (fst g) k) = context l" for k
    unfolding g_def by (simp add: dtor_sets_context ctor_saves_context)
  then show ?thesis
    unfolding g_def by (simp add: ctor_sets_context)
qed

text \<open>
  Two nested guards on a logger with an empty context: the contexts are
  \<open>Reading file\<close>, then \<open>Reading file, cave 1\<close>, and each destructor puts back what
  its guard found.
\<close>

lemma SetLoggerContextForFunction_nested:
  "(let l0 = \<lparr>ignore = False, read = True, messages = [], context = []\<rparr>;
        (g1, l1) = SetLoggerContextForFunction_ctor ''Reading file'' l0;
        (g2, l2) = SetLoggerContextForFunction_ctor ''cave 1'' l1;
        l3 = SetLoggerContextForFunction_dtor g2 l2;
        l4 = SetLoggerContextForFunction_dtor g1 l3
    in context l1 = ''Reading file'' \<and> context l2 = ''Reading file, cave 1''
     \<and> context l3 = ''Reading file'' \<and> context l4 = [])"
  by (simp add: SetLoggerContextForFunction_ctor_def SetLoggerContextForFunction_dtor_def
      get_context_def set_context_def Let_def)

section \<open>Cloning\<close>

lemma CaveRectangle_copy_fields:
  "p1 (CaveRectangle_copy r) = p1 r" "p2 (CaveRectangle_copy r) = p2 r"
  "element (CaveRectangle_copy r) = element r"
  by (simp_all add: CaveRectangle_copy_def)

lemma CaveRectangle_copy_eq: "CaveRectangle_copy r = r"
  by (cases r) (simp add: CaveRectangle_copy_def)

lemma get_characteristic_element_copy:
  "get_characteristic_element (CaveRectangle_copy r) = get_characteristic_element r"
  by (simp add: get_characteristic_element_def CaveRectangle_copy_fields)

text \<open>
  C4. For a rectangle object at address \<open>this\<close> of the store, \<open>clone\<close> returns the
  address \<open>c\<close> of a new object with the same \<open>p1\<close>, \<open>p2\<close> and \<open>element\<close>; \<open>c\<close> differs
  from \<open>this\<close>, and every object that was in the store is still there unchanged. The
  two objects share no storage: whatever is written to the fields of the clone, the
  original reads as before, and whatever is written to the fields of the original,
  the clone reads as before; each write is seen through the pointer it went through.
\<close>

theorem clone_independent:
  assumes "this < length st"
  shows "\<exists>c st'. clone this st = Some (c, st') \<and> c \<noteq> this \<and> c < length st'
      \<and> (\<forall>a < length st. st' ! a = st ! a)
      \<and> p1 (st' ! c) = p1 (st ! this) \<and> p2 (st' ! c) = p2 (st ! this)
      \<and> element (st' ! c) = element (st ! this)
      \<and> (\<forall>f. assign c f st' ! this = st ! this \<and> assign c f st' ! c = f (st' ! c))
      \<and> (\<forall>f. assign this f st' ! c = st' ! c \<and> assign this f st' ! this = f (st ! this))"
proof -
  let ?c = "length st"
  let ?st' = "st @ [CaveRectangle_copy (st ! this)]"
  have 1: "clone this st = Some (?c, ?st')"
    using assms by (simp add: clone_def new_CaveRectangle_def)
  have 2: "?c \<noteq> this" "?c < length ?st'" using assms by simp_all
  have 3: "\<forall>a < length st. ?st' ! a = st ! a" by (simp add: nth_append)
  have 4: "p1 (?st' ! ?c) = p1 (st ! this)" "p2 (?st' ! ?c) = p2 (st ! this)"
    "element (?st' ! ?c) = element (st ! this)"
    by (simp_all add: CaveRectangle_copy_def)
  have 5: "assign ?c f ?st' ! this = st ! this \<and> assign ?c f ?st' ! ?c = f (?st' ! ?c)" for f
    using assms by (simp add: assign_def nth_append nth_list_update)
  have 6: "assign this f ?st' ! ?c = ?st' ! ?c \<and> assign this f ?st' ! this = f (st ! this)" for f
    using assms by (simp add: assign_def nth_append nth_list_update)
  from 1 2 3 4 5 6 show ?thesis by blast
qed

text \<open>
  At a store with one rectangle: the clone is the second object; giving the clone
  another element, or the original another corner, changes that object only.
\<close>

theorem clone_independent_witness:
  "(let r = \<lparr>p1 = \<lparr>x = 2, y = 2\<rparr>, p2 = \<lparr>x = 5, y = 4\<rparr>, element = ''Wall''\<rparr>
    in (0::nat) < length [r] \<and> clone 0 [r] = Some (1, [r, r])
     \<and> assign 1 (\<lambda>c. c\<lparr>element := ''Dirt''\<rparr>) [r, r] = [r, r\<lparr>element := ''Dirt''\<rparr>]
     \<and> assign 0 (\<lambda>c. c\<lparr>p1 := \<lparr>x = 0, y = 0\<rparr>\<rparr>) [r, r] = [r\<lparr>p1 := \<lparr>x = 0, y = 0\<rparr>\<rparr>, r]
     \<and> (\<exists>c st'. clone 0 [r] = Some (c, st') \<and> c \<noteq> 0
          \<and> element (st' ! c) = element ([r] ! 0)
          \<and> (\<forall>f. assign c f st' ! 0 = [r] ! 0)))"
  unfolding Let_def
  using clone_independent [of 0 "[\<lparr>p1 = \<lparr>x = 2, y = 2\<rparr>, p2 = \<lparr>x = 5, y = 4\<rparr>, element = ''Wall''\<rparr>]"]
  by (simp add: clone_def new_CaveRectangle_def CaveRectangle_copy_def assign_def)

section \<open>The footprint of draw\<close>

lemma Coordinate_eq_iff: "(p::Coordinate) = \<lparr>x = i, y = j\<rparr> \<longleftrightarrow> x p = i \<and> y p = j"
  by (cases p) auto

lemma cave_set_dims: "width (cave_set c p e) = width c" "height (cave_set c p e) = height c"
  by (simp_all add: cave_set_def)

lemma in_bounds_cave_set: "in_bounds (cave_set c q e) p = in_bounds c p"
  by (simp add: in_bounds_def cave_set_dims)

lemma cells_cave_set:
  "cells (cave_set c q e) p = (if p = q \<and> in_bounds c q then e else cells c p)"
  by (simp add: cave_set_def)

lemma fold_cave_set_dims:
  "width (fold (\<lambda>i c. cave_set c (f i) e) is cave) = width cave \<and>
   height (fold (\<lambda>i c. cave_set c (f i) e) is cave) = height cave"
  by (induction "is" arbitrary: cave) (simp_all add: cave_set_dims)

lemma fold_cave_set_cells:
  "cells (fold (\<lambda>i c. cave_set c (f i) e) is cave) p =
     (if p \<in> f ` set is \<and> in_bounds cave p then e else cells cave p)"
proof (induction "is" arbitrary: cave)
  case Nil
  show ?case by simp
next
  case (Cons i "is")
  show ?case
    by (auto simp: Cons.IH in_bounds_cave_set cells_cave_set)
qed

lemma draw_row_cells:
  "cells (draw_row x1 x2 j e cave) p =
     (if x1 \<le> x p \<and> x p \<le> x2 \<and> y p = j \<and> in_bounds cave p then e else cells cave p)"
  unfolding draw_row_def fold_cave_set_cells
  by (auto simp: Coordinate_eq_iff image_iff)

lemma draw_column_cells:
  "cells (draw_column y1 y2 i e cave) p =
     (if y1 \<le> y p \<and> y p \<le> y2 \<and> x p = i \<and> in_bounds cave p then e else cells cave p)"
  unfolding draw_column_def fold_cave_set_cells
  by (auto simp: Coordinate_eq_iff image_iff)

lemma draw_row_dims:
  "width (draw_row x1 x2 j e cave) = width cave" "height (draw_row x1 x2 j e cave) = height cave"
  unfolding draw_row_def using fold_cave_set_dims[of "\<lambda>i. \<lparr>x = i, y = j\<rparr>" e "[x1..x2]" cave] by simp_all

lemma draw_column_dims:
  "width (draw_column y1 y2 i e cave) = width cave" "height (draw_column y1 y2 i e cave) = height cave"
  unfolding draw_column_def using fold_cave_set_dims[of "\<lambda>j. \<lparr>x = i, y = j\<rparr>" e "[y1..y2]" cave] by simp_all

lemma in_bounds_dims: "width c' = width c \<Longrightarrow> height c' = height c \<Longrightarrow> in_bounds c' p = in_bounds c p"
  by (simp add: in_bounds_def)


lemma in_bounds_draw_row: "in_bounds (draw_row x1 x2 j e cave) p = in_bounds cave p"
  by (simp add: in_bounds_def draw_row_dims)

lemma in_bounds_draw_column: "in_bounds (draw_column y1 y2 i e cave) p = in_bounds cave p"
  by (simp add: in_bounds_def draw_column_dims)

lemma draw_outline_cells:
  assumes "x1 \<le> x2" and "y1 \<le> y2"
  shows "cells (draw_column y1 y2 x2 e (draw_column y1 y2 x1 e
            (draw_row x1 x2 y2 e (draw_row x1 x2 y1 e cave)))) p =
     (if (x1 \<le> x p \<and> x p \<le> x2 \<and> y1 \<le> y p \<and> y p \<le> y2 \<and>
          (y p = y1 \<or> y p = y2 \<or> x p = x1 \<or> x p = x2)) \<and> in_bounds cave p
      then e else cells cave p)"
  unfolding draw_column_cells draw_row_cells in_bounds_draw_row in_bounds_draw_column
  using assms by auto

lemma draw_unfold:
  assumes "bounding_box r = (lo, hi)"
  shows "draw r cave =
      draw_column (y lo) (y hi) (x hi) (element r) (draw_column (y lo) (y hi) (x lo) (element r)
        (draw_row (x lo) (x hi) (y hi) (element r) (draw_row (x lo) (x hi) (y lo) (element r) cave)))"
  by (simp add: draw_def assms Let_def)

lemma draw_dims: "width (draw r cave) = width cave" "height (draw r cave) = height cave"
proof -
  obtain lo hi where b: "bounding_box r = (lo, hi)" by (cases "bounding_box r")
  show "width (draw r cave) = width cave" "height (draw r cave) = height cave"
    unfolding draw_unfold [OF b] by (simp_all add: draw_row_dims draw_column_dims)
qed

lemma draw_cells:
  "cells (draw r cave) p =
     (if on_perimeter r p \<and> in_bounds cave p then element r else cells cave p)"
proof -
  obtain lo hi where b: "bounding_box r = (lo, hi)" by (cases "bounding_box r")
  have le: "x lo \<le> x hi" "y lo \<le> y hi"
    using b by (auto simp: bounding_box_def)
  show ?thesis
    unfolding draw_unfold [OF b] draw_outline_cells [OF le] by (simp add: on_perimeter_def b)
qed

text \<open>
  C2. For every rectangle object \<open>r\<close> and every rendered cave, \<open>draw\<close> is defined
  (out-of-bounds cells are skipped, nothing fails), keeps the width and the height,
  and gives each cell \<open>p\<close> the value: the element of \<open>r\<close> when \<open>p\<close> is on the
  perimeter of the normalized bounding box of \<open>p1\<close> and \<open>p2\<close> and inside the grid
  bounds, and the value \<open>p\<close> had before otherwise.
\<close>

theorem draw_footprint:
  "width (draw r cave) = width cave \<and> height (draw r cave) = height cave \<and>
   cells (draw r cave) p =
     (if on_perimeter r p \<and> in_bounds cave p then element r else cells cave p)"
  using draw_dims [of r cave] draw_cells [of r cave p] by simp

text \<open>
  The scenario of the specification: \<open>p1 = (2,2)\<close>, \<open>p2 = (5,4)\<close>, element Wall, in a
  10 by 10 cave of Empty. The rows \<open>y = 1..5\<close> of the columns \<open>x = 1..6\<close> show the
  outline; the interior cell \<open>(3,3)\<close> stays Empty.
\<close>

theorem draw_footprint_witness:
  "(let cave = \<lparr>width = 10, height = 10, cells = (\<lambda>_. ''Empty'')\<rparr>;
        r = \<lparr>p1 = \<lparr>x = 2, y = 2\<rparr>, p2 = \<lparr>x = 5, y = 4\<rparr>, element = ''Wall''\<rparr>
    in map (\<lambda>j. map (\<lambda>i. cells (draw r cave) \<lparr>x = i, y = j\<rparr> = ''Wall'') [1, 2, 3, 4, 5, 6]) [1, 2, 3, 4, 5]
       = [[False, False, False, False, False, False],
          [False, True,  True,  True,  True,  False],
          [False, True,  False, False, True,  False],
          [False, True,  True,  True,  True,  False],
          [False, False, False, False, False, False]]
     \<and> cells (draw r cave) \<lparr>x = 3, y = 3\<rparr> = ''Empty''
     \<and> cells (draw r cave) \<lparr>x = 5, y = 3\<rparr> = ''Wall''
     \<and> width (draw r cave) = 10 \<and> height (draw r cave) = 10)"
  unfolding Let_def
  by (simp add: draw_footprint on_perimeter_def bounding_box_def in_bounds_def)

section \<open>Swapped corners\<close>

text \<open>
  Two integers that differ print differently, and a printed integer holds no space,
  so the first two fields of a line determine \<open>p1\<close>.
\<close>

lemma digit_char_inj: "d < 10 \<Longrightarrow> d' < 10 \<Longrightarrow> digit_char d = digit_char d' \<Longrightarrow> d = d'"
proof -
  assume a: "d < 10" "d' < 10" "digit_char d = digit_char d'"
  have "distinct ''0123456789''" by simp
  moreover have "d < length ''0123456789''" "d' < length ''0123456789''" using a by simp_all
  ultimately show ?thesis using a(3) unfolding digit_char_def by (simp only: nth_eq_iff_index_eq)
qed

lemma digit_char_mem: "d < 10 \<Longrightarrow> digit_char d \<in> set ''0123456789''"
  unfolding digit_char_def by (rule nth_mem) simp

lemma digit_char_not_space: "d < 10 \<Longrightarrow> digit_char d \<noteq> CHR '' ''"
  using digit_char_mem [of d] by auto

lemma digit_char_not_minus: "d < 10 \<Longrightarrow> digit_char d \<noteq> CHR ''-''"
  using digit_char_mem [of d] by auto

lemma show_nat_small: "n < 10 \<Longrightarrow> show_nat n = [digit_char n]"
  by (subst show_nat.simps) simp

lemma show_nat_big: "\<not> n < 10 \<Longrightarrow> show_nat n = show_nat (n div 10) @ [digit_char (n mod 10)]"
  by (subst show_nat.simps) simp

lemma show_nat_not_Nil: "show_nat n \<noteq> []"
  by (cases "n < 10") (simp_all add: show_nat_small show_nat_big)

lemma show_nat_chars: "c \<in> set (show_nat n) \<Longrightarrow> \<exists>d<10. c = digit_char d"
proof (induction n rule: show_nat.induct)
  case (1 n)
  show ?case
  proof (cases "n < 10")
    case True
    with "1.prems" show ?thesis by (auto simp: show_nat_small)
  next
    case False
    from "1.prems" have "c \<in> set (show_nat (n div 10)) \<or> c = digit_char (n mod 10)"
      by (auto simp: show_nat_big [OF False])
    then show ?thesis
    proof
      assume "c \<in> set (show_nat (n div 10))"
      with "1.IH" False show ?thesis by simp
    next
      assume "c = digit_char (n mod 10)"
      moreover have "n mod 10 < 10" by simp
      ultimately show ?thesis by blast
    qed
  qed
qed

lemma show_nat_inj: "show_nat n = show_nat m \<Longrightarrow> n = m"
proof (induction n arbitrary: m rule: show_nat.induct)
  case (1 n)
  show ?case
  proof (cases "n < 10")
    case n: True
    show ?thesis
    proof (cases "m < 10")
      case True
      with n "1.prems" have "digit_char n = digit_char m"
        by (simp add: show_nat_small)
      with n True show ?thesis by (rule digit_char_inj)
    next
      case False
      from "1.prems" have "show_nat (m div 10) = []"
        by (simp add: show_nat_small [OF n] show_nat_big [OF False])
      with show_nat_not_Nil show ?thesis by blast
    qed
  next
    case n: False
    show ?thesis
    proof (cases "m < 10")
      case True
      from "1.prems" have "show_nat (n div 10) = []"
        by (simp add: show_nat_small [OF True] show_nat_big [OF n])
      with show_nat_not_Nil show ?thesis by blast
    next
      case False
      from "1.prems" have e: "show_nat (n div 10) = show_nat (m div 10)"
        and d: "digit_char (n mod 10) = digit_char (m mod 10)"
        by (simp_all add: show_nat_big [OF n] show_nat_big [OF False])
      from "1.IH" [OF n e] have q: "n div 10 = m div 10" .
      have r: "n mod 10 = m mod 10" by (rule digit_char_inj [OF _ _ d]) simp_all
      from q r show ?thesis by (metis div_mult_mod_eq)
    qed
  qed
qed

lemma show_int_inj: "show_int i = show_int j \<Longrightarrow> i = j"
proof -
  assume e: "show_int i = show_int j"
  have nm: "hd (show_nat n) \<noteq> CHR ''-''" for n
  proof -
    have "hd (show_nat n) \<in> set (show_nat n)" using show_nat_not_Nil by simp
    then obtain d where "d < 10" "hd (show_nat n) = digit_char d"
      using show_nat_chars by blast
    then show ?thesis using digit_char_not_minus by simp
  qed
  show ?thesis
  proof (cases "i < 0")
    case i: True
    show ?thesis
    proof (cases "j < 0")
      case True
      with i e have "show_nat (nat (- i)) = show_nat (nat (- j))" by (simp add: show_int_def)
      then have "nat (- i) = nat (- j)" by (rule show_nat_inj)
      with i True show ?thesis by simp
    next
      case False
      with i e have "CHR ''-'' # show_nat (nat (- i)) = show_nat (nat j)" by (simp add: show_int_def)
      then have "hd (show_nat (nat j)) = CHR ''-''" by (metis list.sel(1))
      with nm show ?thesis by blast
    qed
  next
    case i: False
    show ?thesis
    proof (cases "j < 0")
      case True
      with i e have "show_nat (nat i) = CHR ''-'' # show_nat (nat (- j))" by (simp add: show_int_def)
      then have "hd (show_nat (nat i)) = CHR ''-''" by simp
      with nm show ?thesis by blast
    next
      case False
      with i e have "show_nat (nat i) = show_nat (nat j)" by (simp add: show_int_def)
      then have "nat i = nat j" by (rule show_nat_inj)
      with i False show ?thesis by simp
    qed
  qed
qed

lemma show_int_no_space: "CHR '' '' \<notin> set (show_int i)"
proof -
  have "CHR '' '' \<notin> set (show_nat n)" for n
  proof
    assume "CHR '' '' \<in> set (show_nat n)"
    then obtain d where "d < 10" "CHR '' '' = digit_char d" using show_nat_chars by blast
    then show False using digit_char_not_space [of d] by simp
  qed
  then show ?thesis by (simp add: show_int_def)
qed

lemma split_at_space:
  "CHR '' '' \<notin> set a \<Longrightarrow> CHR '' '' \<notin> set b \<Longrightarrow> a @ CHR '' '' # r = b @ CHR '' '' # s
     \<Longrightarrow> a = b \<and> r = s"
proof (induction a arbitrary: b)
  case Nil
  then show ?case by (cases b) auto
next
  case (Cons c a)
  then show ?case by (cases b) auto
qed

lemma get_bdcff_p1:
  assumes "get_bdcff nm r = get_bdcff nm r'"
  shows "p1 r = p1 r'"
proof -
  from assms have 1: "show_int (x (p1 r)) @ CHR '' '' # (show_int (y (p1 r)) @ CHR '' '' # A)
      = show_int (x (p1 r')) @ CHR '' '' # (show_int (y (p1 r')) @ CHR '' '' # B)"
    if "A = show_int (x (p2 r)) @ '' '' @ show_int (y (p2 r)) @ '' '' @ nm (element r)"
      "B = show_int (x (p2 r')) @ '' '' @ show_int (y (p2 r')) @ '' '' @ nm (element r')" for A B
    using that by (simp add: get_bdcff_def)
  then obtain A B where 2: "show_int (x (p1 r)) @ CHR '' '' # (show_int (y (p1 r)) @ CHR '' '' # A)
      = show_int (x (p1 r')) @ CHR '' '' # (show_int (y (p1 r')) @ CHR '' '' # B)" by blast
  from split_at_space [OF show_int_no_space show_int_no_space 2]
  have a: "show_int (x (p1 r)) = show_int (x (p1 r'))"
    and 3: "show_int (y (p1 r)) @ CHR '' '' # A = show_int (y (p1 r')) @ CHR '' '' # B" by simp_all
  from split_at_space [OF show_int_no_space show_int_no_space 3]
  have b: "show_int (y (p1 r)) = show_int (y (p1 r'))" by simp
  from a b have "x (p1 r) = x (p1 r')" "y (p1 r) = y (p1 r')" by (simp_all add: show_int_inj)
  then show ?thesis by simp
qed

lemma bounding_box_swap:
  "p1 r' = p2 r \<Longrightarrow> p2 r' = p1 r \<Longrightarrow> bounding_box r' = bounding_box r"
  by (simp add: bounding_box_def min.commute max.commute)

lemma on_perimeter_swap:
  "p1 r' = p2 r \<Longrightarrow> p2 r' = p1 r \<Longrightarrow> on_perimeter r' p = on_perimeter r p"
  by (simp add: on_perimeter_def bounding_box_swap)

text \<open>
  C5. For two rectangle objects that differ only by swapping \<open>p1\<close> and \<open>p2\<close> (same
  element), drawing each into the same rendered cave gives the same cave, and that
  cave is the outline: after either drawing a cell \<open>p\<close> holds the element when it is
  on the perimeter of the normalized box (the same perimeter for both objects) and
  inside the grid bounds, and the value it had before otherwise. Their serialized
  lines differ exactly when the two corners differ (with equal corners the swap
  changes nothing and the two objects are field-equal).
\<close>

theorem draw_swapped_corners:
  fixes r r' :: "'e CaveRectangle"
  assumes "p1 r' = p2 r" and "p2 r' = p1 r" and "element r' = element r"
  shows "draw r' cave = draw r cave
       \<and> (on_perimeter r' p \<longleftrightarrow> on_perimeter r p)
       \<and> cells (draw r cave) p =
           (if on_perimeter r p \<and> in_bounds cave p then element r else cells cave p)
       \<and> cells (draw r' cave) p =
           (if on_perimeter r p \<and> in_bounds cave p then element r else cells cave p)
       \<and> (get_bdcff nm r' \<noteq> get_bdcff nm r \<longleftrightarrow> p1 r \<noteq> p2 r)"
proof -
  have same: "draw r' cave = draw r cave"
    by (simp add: draw_def bounding_box_swap [OF assms(1,2)] assms(3))
  have per: "on_perimeter r' p \<longleftrightarrow> on_perimeter r p"
    by (rule on_perimeter_swap [OF assms(1,2)])
  have cr: "cells (draw r cave) p =
      (if on_perimeter r p \<and> in_bounds cave p then element r else cells cave p)"
    by (rule draw_cells)
  have cr': "cells (draw r' cave) p =
      (if on_perimeter r p \<and> in_bounds cave p then element r else cells cave p)"
    using draw_cells [of r' cave p] by (simp add: per assms(3))
  have lines: "get_bdcff nm r' \<noteq> get_bdcff nm r \<longleftrightarrow> p1 r \<noteq> p2 r"
  proof
    assume "get_bdcff nm r' \<noteq> get_bdcff nm r"
    then show "p1 r \<noteq> p2 r"
      using assms by (auto simp: get_bdcff_def)
  next
    assume d: "p1 r \<noteq> p2 r"
    show "get_bdcff nm r' \<noteq> get_bdcff nm r"
    proof
      assume "get_bdcff nm r' = get_bdcff nm r"
      from get_bdcff_p1 [OF this] assms(1) d show False by simp
    qed
  qed
  from same per cr cr' lines show ?thesis by simp
qed

text \<open>
  The rectangle of the specification's scenario, \<open>(2,2)\<close> to \<open>(5,4)\<close>, and its mirror
  image, \<open>(5,4)\<close> to \<open>(2,2)\<close>, in a 10 by 10 cave of Empty: one drawing, two lines.
  Drawn from the mirror image, the corner \<open>(2,2)\<close> and the side cell \<open>(5,3)\<close> hold
  Wall, the interior cell \<open>(3,3)\<close> and the outside cell \<open>(6,3)\<close> stay Empty.
\<close>

theorem draw_swapped_corners_witness:
  "draw \<lparr>p1 = \<lparr>x = 5, y = 4\<rparr>, p2 = \<lparr>x = 2, y = 2\<rparr>, element = ''Wall''\<rparr>
        \<lparr>width = 10, height = 10, cells = (\<lambda>_. ''Empty'')\<rparr>
   = draw \<lparr>p1 = \<lparr>x = 2, y = 2\<rparr>, p2 = \<lparr>x = 5, y = 4\<rparr>, element = ''Wall''\<rparr>
        \<lparr>width = 10, height = 10, cells = (\<lambda>_. ''Empty'')\<rparr>
   \<and> cells (draw \<lparr>p1 = \<lparr>x = 5, y = 4\<rparr>, p2 = \<lparr>x = 2, y = 2\<rparr>, element = ''Wall''\<rparr>
        \<lparr>width = 10, height = 10, cells = (\<lambda>_. ''Empty'')\<rparr>) \<lparr>x = 2, y = 2\<rparr> = ''Wall''
   \<and> cells (draw \<lparr>p1 = \<lparr>x = 5, y = 4\<rparr>, p2 = \<lparr>x = 2, y = 2\<rparr>, element = ''Wall''\<rparr>
        \<lparr>width = 10, height = 10, cells = (\<lambda>_. ''Empty'')\<rparr>) \<lparr>x = 5, y = 3\<rparr> = ''Wall''
   \<and> cells (draw \<lparr>p1 = \<lparr>x = 5, y = 4\<rparr>, p2 = \<lparr>x = 2, y = 2\<rparr>, element = ''Wall''\<rparr>
        \<lparr>width = 10, height = 10, cells = (\<lambda>_. ''Empty'')\<rparr>) \<lparr>x = 3, y = 3\<rparr> = ''Empty''
   \<and> cells (draw \<lparr>p1 = \<lparr>x = 5, y = 4\<rparr>, p2 = \<lparr>x = 2, y = 2\<rparr>, element = ''Wall''\<rparr>
        \<lparr>width = 10, height = 10, cells = (\<lambda>_. ''Empty'')\<rparr>) \<lparr>x = 6, y = 3\<rparr> = ''Empty''
   \<and> get_bdcff id \<lparr>p1 = \<lparr>x = 5, y = 4\<rparr>, p2 = \<lparr>x = 2, y = 2\<rparr>, element = ''Wall''\<rparr>
     \<noteq> get_bdcff id \<lparr>p1 = \<lparr>x = 2, y = 2\<rparr>, p2 = \<lparr>x = 5, y = 4\<rparr>, element = ''Wall''\<rparr>
   \<and> get_bdcff id \<lparr>p1 = \<lparr>x = 5, y = 4\<rparr>, p2 = \<lparr>x = 2, y = 2\<rparr>, element = ''Wall''\<rparr>
     = ''Rectangle 5 4 2 2 Wall''
   \<and> get_bdcff id \<lparr>p1 = \<lparr>x = 2, y = 2\<rparr>, p2 = \<lparr>x = 5, y = 4\<rparr>, element = ''Wall''\<rparr>
     = ''Rectangle 2 2 5 4 Wall''"
proof -
  let ?r' = "\<lparr>p1 = \<lparr>x = 5, y = 4\<rparr>, p2 = \<lparr>x = 2, y = 2\<rparr>, element = ''Wall''\<rparr>"
  let ?r = "\<lparr>p1 = \<lparr>x = 2, y = 2\<rparr>, p2 = \<lparr>x = 5, y = 4\<rparr>, element = ''Wall''\<rparr>"
  let ?cave = "\<lparr>width = 10, height = 10, cells = (\<lambda>_. ''Empty'')\<rparr>"
  have s: "get_bdcff id ?r' = ''Rectangle 5 4 2 2 Wall''"
    "get_bdcff id ?r = ''Rectangle 2 2 5 4 Wall''"
    by (simp_all add: get_bdcff_def show_int_def show_nat_small digit_char_def)
  have sw: "p1 ?r' = p2 ?r" "p2 ?r' = p1 ?r" "element ?r' = element ?r"
    by simp_all
  note t = draw_swapped_corners [OF sw, of ?cave _ id]
  show ?thesis
    using t [of "\<lparr>x = 2, y = 2\<rparr>"] t [of "\<lparr>x = 5, y = 3\<rparr>"]
      t [of "\<lparr>x = 3, y = 3\<rparr>"] t [of "\<lparr>x = 6, y = 3\<rparr>"] s
    by (simp add: on_perimeter_def bounding_box_def in_bounds_def)
qed

end
